theory Spec2Isabelle
  imports Main
begin

section \<open>The onboarding stepper of VoidOnboarding.tsx\<close>

text \<open>
  The component \<^verbatim>\<open>VoidOnboardingContent\<close> keeps a page index and a flow type in React
  state and renders the entry of one of two object literals found under the page index.
  The form pages keep a little local state of their own and continue, after a timer of
  1500 ms, by calling back into the stepper.

  The embedding is a record holding the React state of the stepper, the local state of
  the mounted page, the two external services as far as the component uses them, and the
  queue of pending timers with a clock in milliseconds. Every event handler of the source
  is a function on that record.
\<close>

subsection \<open>Types of the source\<close>

datatype StepperFlowType = signIn | signUp

datatype WantToUseOption = smart | private_opt | cheap | all_opt

text \<open>\<^verbatim>\<open>ProviderName\<close> is imported from voidSettingsTypes.js; it is a type of string literals.\<close>

type_synonym ProviderName = string

text \<open>
  What a page shows. A continuation prop \<^verbatim>\<open>onSuccess={() => setPageIndex(k)}\<close> is kept as
  its target \<open>k\<close>; every \<^verbatim>\<open>onSuccess\<close> of the file has that form.
\<close>

datatype content =
    WelcomeContent
  | LoginPage
  | ResetPasswordPage int
  | OTPPasswordPage string int
  | CreatePasswordPage int
  | SignUpPage int
  | SettingsAndThemes

datatype footer = prevButton | returnToSignInButton | lastPagePrevAndNextButtons

datatype page =
    OnboardingPageShell content "footer option"
  | OnboardingFormPageShell string content "footer option"

type_synonym StepperPages = "int \<rightharpoonup> page"

fun content_of :: "page \<Rightarrow> content" where
  "content_of (OnboardingPageShell c b) = c"
| "content_of (OnboardingFormPageShell t c b) = c"

fun bottom_of :: "page \<Rightarrow> footer option" where
  "bottom_of (OnboardingPageShell c b) = b"
| "bottom_of (OnboardingFormPageShell t c b) = b"

subsection \<open>The screen tables\<close>

definition renderLastStep :: page where
  "renderLastStep = OnboardingPageShell SettingsAndThemes (Some lastPagePrevAndNextButtons)"

definition stepperFlowStartingPoint :: StepperPages where
  "stepperFlowStartingPoint =
     [0 \<mapsto> OnboardingPageShell WelcomeContent None,
      1 \<mapsto> OnboardingFormPageShell ''Sign in'' LoginPage None]"

definition signInStepperFlow :: StepperPages where
  "signInStepperFlow = stepperFlowStartingPoint ++
     [2 \<mapsto> OnboardingFormPageShell ''Enter your email'' (ResetPasswordPage 3) (Some prevButton),
      3 \<mapsto> OnboardingFormPageShell ''Check your email''
             (OTPPasswordPage ''test@proton.com'' 4) (Some prevButton),
      4 \<mapsto> OnboardingFormPageShell ''Create new password'' (CreatePasswordPage 6) (Some prevButton),
      5 \<mapsto> OnboardingFormPageShell ''Check your email''
             (OTPPasswordPage ''test_verify_code@proton.com'' 6) (Some returnToSignInButton),
      6 \<mapsto> renderLastStep]"

definition signUpStepperFlow :: StepperPages where
  "signUpStepperFlow = stepperFlowStartingPoint ++
     [2 \<mapsto> OnboardingFormPageShell ''Sign up'' (SignUpPage 3) (Some prevButton),
      3 \<mapsto> OnboardingFormPageShell ''Create password'' (CreatePasswordPage 4) (Some prevButton),
      4 \<mapsto> renderLastStep]"

text \<open>The expression rendered inside the keyed \<^verbatim>\<open>div\<close>: a missing key gives \<^verbatim>\<open>undefined\<close>.\<close>

definition lookup :: "StepperFlowType \<Rightarrow> int \<Rightarrow> page option" where
  "lookup t i = (if t = signIn then signInStepperFlow i else signUpStepperFlow i)"

text \<open>
  The pages of a table in the order of their keys, as an object literal with integer keys
  enumerates them; the keys of every table of the file lie between 0 and 9.
\<close>

definition pages_of :: "(int \<rightharpoonup> 'a) \<Rightarrow> 'a list" where
  "pages_of tbl = List.map_filter tbl [0..9]"

fun is_otp :: "content \<Rightarrow> bool" where
  "is_otp (OTPPasswordPage e k) = True"
| "is_otp c = False"

subsection \<open>The tables of the earlier revision of the file\<close>

text \<open>
  The repository also holds an earlier revision of the component, where the pages take no
  continuation and the last step sits at key 9 of the sign-up table only.
\<close>

datatype content_old =
    WelcomeContent_old
  | LoginPage_old
  | SignInPasswordPage_old
  | ResetPasswordPage_old
  | CreatePasswordPage_old
  | ConfirmEmailPasswordPage_old
  | SignUpPage_old
  | SettingsAndThemes_old

definition stepperFlowStartingPoint_old :: "int \<rightharpoonup> string \<times> content_old \<times> footer option" where
  "stepperFlowStartingPoint_old =
     [0 \<mapsto> ('''', WelcomeContent_old, None),
      1 \<mapsto> (''Sign in'', LoginPage_old, None)]"

definition signInStepperFlow_old :: "int \<rightharpoonup> string \<times> content_old \<times> footer option" where
  "signInStepperFlow_old = stepperFlowStartingPoint_old ++
     [2 \<mapsto> (''Sign in'', SignInPasswordPage_old, Some prevButton),
      3 \<mapsto> (''Reset your password'', ResetPasswordPage_old, Some prevButton),
      4 \<mapsto> (''Reset your password'', CreatePasswordPage_old, Some prevButton),
      5 \<mapsto> (''Check your email'', ConfirmEmailPasswordPage_old, Some returnToSignInButton)]"

definition signUpStepperFlow_old :: "int \<rightharpoonup> string \<times> content_old \<times> footer option" where
  "signUpStepperFlow_old = stepperFlowStartingPoint_old ++
     [2 \<mapsto> (''Sign up'', SignUpPage_old, Some prevButton),
      3 \<mapsto> (''Create password'', CreatePasswordPage_old, Some prevButton),
      4 \<mapsto> (''Check your email'', ConfirmEmailPasswordPage_old, Some prevButton),
      9 \<mapsto> ('''', SettingsAndThemes_old, Some lastPagePrevAndNextButtons)]"

subsection \<open>State\<close>

text \<open>
  A pending timer: the rest of a \<^verbatim>\<open>submitForm\<close> behind its \<^verbatim>\<open>await\<close>, tagged with the
  mounted instance that started it, or the timeout of the error message of
  \<^verbatim>\<open>AddProvidersPage\<close>.
\<close>

datatype task =
    ResumeLogin nat
  | ResumeSubmit nat int
  | ClearErrorMessage

record world =
  pageIndex :: int
  stepperType :: StepperFlowType
  wantToUseOption :: WantToUseOption
  selectedIntelligentProvider :: ProviderName
  selectedPrivateProvider :: ProviderName
  selectedAffordableProvider :: ProviderName
  selectedAllProvider :: ProviderName
  isOnboardingComplete :: bool
  captured :: "(string \<times> ProviderName \<times> WantToUseOption) list"
  mountId :: nat
  isSubmitting :: bool
  error :: string
  otp :: string
  errorMessage :: "string option"
  now :: nat
  timers :: "(nat \<times> task) list"
  continuationCalls :: nat

text \<open>
  \<open>isOnboardingComplete\<close> is the flag of the settings service and \<open>captured\<close> the calls
  received by the metrics service. \<open>mountId\<close> numbers the instances of the keyed subtree;
  \<open>isSubmitting\<close>, \<open>error\<close>, \<open>otp\<close> and \<open>errorMessage\<close> are the \<^verbatim>\<open>useState\<close> cells of the
  mounted page. \<open>continuationCalls\<close> is a ghost counter: it counts the runs of a form's
  continuation (\<^verbatim>\<open>onSuccess()\<close>, or the two setter calls of \<^verbatim>\<open>LoginPage\<close>).
\<close>

definition initial :: "bool \<Rightarrow> world" where
  "initial flag = \<lparr> pageIndex = 0, stepperType = signIn, wantToUseOption = smart,
     selectedIntelligentProvider = ''anthropic'', selectedPrivateProvider = ''ollama'',
     selectedAffordableProvider = ''gemini'', selectedAllProvider = ''anthropic'',
     isOnboardingComplete = flag, captured = [], mountId = 0, isSubmitting = False,
     error = '''', otp = '''', errorMessage = None, now = 0, timers = [],
     continuationCalls = 0 \<rparr>"

definition current :: "world \<Rightarrow> page option" where
  "current w = lookup (stepperType w) (pageIndex w)"

subsection \<open>Rendering: the key of the subtree\<close>

text \<open>
  The rendered subtree has the key \<^verbatim>\<open>`${stepperType}-${pageIndex}`\<close>. The state updates of one
  handler are applied in order and rendered once; when the key has changed the old page is
  unmounted: its local state is gone, the cleanup of its effect clears the timeout of the
  error message, and the timers of its \<^verbatim>\<open>submitForm\<close> stay in the queue.
\<close>

definition key :: "world \<Rightarrow> StepperFlowType \<times> int" where
  "key w = (stepperType w, pageIndex w)"

definition remount :: "world \<Rightarrow> world" where
  "remount w = w\<lparr> mountId := mountId w + 1, isSubmitting := False, error := '''', otp := '''',
     errorMessage := None, timers := filter (\<lambda>(t, k). k \<noteq> ClearErrorMessage) (timers w) \<rparr>"

definition rerender :: "StepperFlowType \<times> int \<Rightarrow> world \<Rightarrow> world" where
  "rerender old w = (if key w = old then w else remount w)"

subsection \<open>The setters of VoidOnboardingContent\<close>

definition setPageIndex :: "int \<Rightarrow> world \<Rightarrow> world" where
  "setPageIndex k w = w\<lparr> pageIndex := k \<rparr>"

definition setStepperType :: "StepperFlowType \<Rightarrow> world \<Rightarrow> world" where
  "setStepperType t w = w\<lparr> stepperType := t \<rparr>"

definition setPageType :: "StepperFlowType \<Rightarrow> world \<Rightarrow> world" where
  "setPageType t w = (let w1 = setStepperType t w in setPageIndex (pageIndex w1 + 1) w1)"

definition getSelectedProvider :: "world \<Rightarrow> ProviderName" where
  "getSelectedProvider w = (case wantToUseOption w of
       smart \<Rightarrow> selectedIntelligentProvider w
     | private_opt \<Rightarrow> selectedPrivateProvider w
     | cheap \<Rightarrow> selectedAffordableProvider w
     | all_opt \<Rightarrow> selectedAllProvider w)"

definition setSelectedProvider :: "ProviderName \<Rightarrow> world \<Rightarrow> world" where
  "setSelectedProvider p w = (case wantToUseOption w of
       smart \<Rightarrow> w\<lparr> selectedIntelligentProvider := p \<rparr>
     | private_opt \<Rightarrow> w\<lparr> selectedPrivateProvider := p \<rparr>
     | cheap \<Rightarrow> w\<lparr> selectedAffordableProvider := p \<rparr>
     | all_opt \<Rightarrow> w\<lparr> selectedAllProvider := p \<rparr>)"

text \<open>A local setter called from a closure of instance \<open>i\<close> does nothing once \<open>i\<close> is unmounted.\<close>

definition setIsSubmitting :: "nat \<Rightarrow> bool \<Rightarrow> world \<Rightarrow> world" where
  "setIsSubmitting i b w = (if i = mountId w then w\<lparr> isSubmitting := b \<rparr> else w)"

text \<open>
  \<^verbatim>\<open>onSuccess={() => setPageIndex(k)}\<close>, called from a form page or from the effect of the OTP
  page.
\<close>

definition onSuccess :: "int \<Rightarrow> world \<Rightarrow> world" where
  "onSuccess k w = setPageIndex k (w\<lparr> continuationCalls := continuationCalls w + 1 \<rparr>)"

subsection \<open>The click handlers of the stepper\<close>

text \<open>The button of page 0, the three links of \<^verbatim>\<open>LoginPage\<close>, the link of \<^verbatim>\<open>SignUpPage\<close>.\<close>

definition clickLoginSignup :: "world \<Rightarrow> world" where
  "clickLoginSignup w = rerender (key w) (setPageIndex 1 w)"

definition clickForgotPassword :: "world \<Rightarrow> world" where
  "clickForgotPassword w = rerender (key w) (setPageIndex 2 (setPageType signIn w))"

definition clickEmailSignInCode :: "world \<Rightarrow> world" where
  "clickEmailSignInCode w = rerender (key w) (setPageIndex 5 w)"

definition clickSignUp :: "world \<Rightarrow> world" where
  "clickSignUp w = rerender (key w) (setPageType signUp w)"

definition clickSignIn :: "world \<Rightarrow> world" where
  "clickSignIn w = rerender (key w) (setPageIndex 1 w)"

text \<open>\<^verbatim>\<open>prevButton\<close> and \<^verbatim>\<open>returnToSignInButton\<close>.\<close>

definition retreat :: "world \<Rightarrow> world" where
  "retreat w = rerender (key w) (setPageIndex (pageIndex w - 1) w)"

definition returnToSignIn :: "world \<Rightarrow> world" where
  "returnToSignIn w = rerender (key w) (setPageIndex 1 w)"

subsection \<open>The flag of the settings service\<close>

text \<open>
  The effect with the dependencies \<^verbatim>\<open>[setPageIndex, isOnboardingComplete]\<close> runs when the
  flag has changed, and sets the page index to 0 when the flag is false.
\<close>

definition flagEffect :: "world \<Rightarrow> world" where
  "flagEffect w = (if \<not> isOnboardingComplete w then rerender (key w) (setPageIndex 0 w) else w)"

definition setGlobalSetting_isOnboardingComplete :: "bool \<Rightarrow> world \<Rightarrow> world" where
  "setGlobalSetting_isOnboardingComplete b w =
     (if b = isOnboardingComplete w then w else flagEffect (w\<lparr> isOnboardingComplete := b \<rparr>))"

text \<open>The \<^verbatim>\<open>onClick\<close> of the button of the last page.\<close>

definition capture :: "string \<Rightarrow> ProviderName \<times> WantToUseOption \<Rightarrow> world \<Rightarrow> world" where
  "capture name props w = w\<lparr> captured := captured w @ [(name, props)] \<rparr>"

definition clickEnter :: "world \<Rightarrow> world" where
  "clickEnter w = capture ''Completed Onboarding'' (getSelectedProvider w, wantToUseOption w)
     (setGlobalSetting_isOnboardingComplete True w)"

subsection \<open>The form pages\<close>

text \<open>
  \<^verbatim>\<open>await new Promise((resolve) => setTimeout(resolve, 1500))\<close>: the rest of the function is
  queued 1500 ms from now.
\<close>

definition await_1500 :: "task \<Rightarrow> world \<Rightarrow> world" where
  "await_1500 k w = w\<lparr> timers := timers w @ [(now w + 1500, k)] \<rparr>"

definition LoginPage_submitForm :: "string \<Rightarrow> string \<Rightarrow> world \<Rightarrow> world" where
  "LoginPage_submitForm email password w =
     await_1500 (ResumeLogin (mountId w)) (setIsSubmitting (mountId w) True w)"

definition SignUpPage_submitForm :: "int \<Rightarrow> string \<Rightarrow> string \<Rightarrow> world \<Rightarrow> world" where
  "SignUpPage_submitForm k firstName lastName w =
     await_1500 (ResumeSubmit (mountId w) k) (setIsSubmitting (mountId w) True w)"

definition ResetPasswordPage_submitForm :: "int \<Rightarrow> string \<Rightarrow> world \<Rightarrow> world" where
  "ResetPasswordPage_submitForm k email w =
     await_1500 (ResumeSubmit (mountId w) k) (setIsSubmitting (mountId w) True w)"

definition CreatePasswordPage_submitForm :: "int \<Rightarrow> string \<Rightarrow> string \<Rightarrow> world \<Rightarrow> world" where
  "CreatePasswordPage_submitForm k password confirmPassword w =
     (let w1 = w\<lparr> error := '''' \<rparr> in
      if password \<noteq> confirmPassword then w1\<lparr> error := ''Passwords do not match'' \<rparr>
      else await_1500 (ResumeSubmit (mountId w1) k) (setIsSubmitting (mountId w1) True w1))"

text \<open>
  The OTP page: \<^verbatim>\<open>onChange={setOtp}\<close>, and the effect with the dependency \<^verbatim>\<open>[otp]\<close>, which runs
  when the value has changed. At mount it runs on the empty string and does nothing.
\<close>

definition OTPPasswordPage_setOtp :: "int \<Rightarrow> string \<Rightarrow> world \<Rightarrow> world" where
  "OTPPasswordPage_setOtp k v w =
     (if v = otp w then w
      else let w1 = w\<lparr> otp := v \<rparr> in
           if length v = 6 then rerender (key w1) (onSuccess k w1) else w1)"

subsection \<open>AddProvidersPage\<close>

text \<open>
  \<^verbatim>\<open>setErrorMessage\<close> together with the effect on \<^verbatim>\<open>[errorMessage]\<close>: when the value changes,
  the cleanup clears the old timeout and a truthy message starts one of 5000 ms.
\<close>

definition setErrorMessage :: "string option \<Rightarrow> world \<Rightarrow> world" where
  "setErrorMessage m w =
     (if m = errorMessage w then w
      else w\<lparr> errorMessage := m,
              timers := filter (\<lambda>(t, k). k \<noteq> ClearErrorMessage) (timers w) @
                        (if m = None \<or> m = Some '''' then [] else [(now w + 5000, ClearErrorMessage)]) \<rparr>)"

text \<open>
  The \<^verbatim>\<open>onClick\<close> of the two buttons; \<open>isDisabled\<close> is the value of
  \<^verbatim>\<open>isFeatureNameDisabled('Chat', settingsState)\<close>, a function of voidSettingsTypes.js.
\<close>

definition AddProvidersPage_next :: "bool \<Rightarrow> world \<Rightarrow> world" where
  "AddProvidersPage_next isDisabled w =
     (if \<not> isDisabled then rerender (key w) (setErrorMessage None (setPageIndex (pageIndex w + 1) w))
      else setErrorMessage (Some ''Please set up at least one Chat model before moving on.'') w)"

definition AddProvidersPage_previous :: "world \<Rightarrow> world" where
  "AddProvidersPage_previous w = rerender (key w) (setPageIndex (pageIndex w - 1) w)"

subsection \<open>Timers\<close>

text \<open>What runs when a timer fires.\<close>

fun fire :: "task \<Rightarrow> world \<Rightarrow> world" where
  "fire (ResumeLogin i) w =
     rerender (key w) (setIsSubmitting i False (setPageIndex 6 (setPageType signIn
       (w\<lparr> continuationCalls := continuationCalls w + 1 \<rparr>))))"
| "fire (ResumeSubmit i k) w =
     rerender (key w) (setIsSubmitting i False (onSuccess k w))"
| "fire ClearErrorMessage w = setErrorMessage None w"

text \<open>The earliest pending timer, the first queued among equal times.\<close>

fun earliest :: "(nat \<times> task) list \<Rightarrow> (nat \<times> task) option" where
  "earliest [] = None"
| "earliest (x # xs) =
     (case earliest xs of
        None \<Rightarrow> Some x
      | Some y \<Rightarrow> if fst y < fst x then Some y else Some x)"

lemma earliest_mem: "earliest xs = Some x \<Longrightarrow> x \<in> set xs"
  by (induction xs arbitrary: x) (auto split: option.splits if_splits)

lemma fire_timers_le: "length (timers (fire k w)) \<le> length (timers w)"
  by (cases k)
     (simp_all add: rerender_def remount_def setIsSubmitting_def setPageIndex_def setPageType_def
        setStepperType_def onSuccess_def setErrorMessage_def Let_def)

text \<open>
  Time passes up to the instant \<open>limit\<close>: the timers due by then fire in order, each at its
  own instant.
\<close>

function elapse_to :: "nat \<Rightarrow> world \<Rightarrow> world" where
  "elapse_to limit w =
     (case earliest (timers w) of
        None \<Rightarrow> w\<lparr> now := max (now w) limit \<rparr>
      | Some (t, k) \<Rightarrow>
          if t \<le> limit
          then elapse_to limit (fire k (w\<lparr> now := max (now w) t, timers := remove1 (t, k) (timers w) \<rparr>))
          else w\<lparr> now := max (now w) limit \<rparr>)"
  by pat_completeness auto

termination
proof (relation "measure (\<lambda>(limit, w). length (timers w))")
  show "wf (measure (\<lambda>(limit, w). length (timers w)))" by simp
next
  fix limit :: nat and w :: world and x2 :: "nat \<times> task" and t :: nat and k :: task
  assume e: "earliest (timers w) = Some x2" and x: "(t, k) = x2" and "t \<le> limit"
  from e x have m: "(t, k) \<in> set (timers w)" by (simp add: earliest_mem)
  then have "length (remove1 (t, k) (timers w)) < length (timers w)"
    by (simp add: length_remove1) (cases "timers w", auto)
  moreover have "length (timers (fire k (w\<lparr> now := max (now w) t, timers := remove1 (t, k) (timers w) \<rparr>)))
                 \<le> length (remove1 (t, k) (timers w))"
    using fire_timers_le [of k "w\<lparr> now := max (now w) t, timers := remove1 (t, k) (timers w) \<rparr>"] by simp
  ultimately show "((limit, fire k (w\<lparr> now := max (now w) t, timers := remove1 (t, k) (timers w) \<rparr>)), (limit, w))
                   \<in> measure (\<lambda>(limit, w). length (timers w))"
    by simp
qed

declare elapse_to.simps [simp del]

definition elapse :: "nat \<Rightarrow> world \<Rightarrow> world" where
  "elapse d w = elapse_to (now w + d) w"

subsection \<open>Events\<close>

text \<open>
  What the user, the clock and the settings service can do. An event of a control acts
  only when the rendered page has that control. Once the flag is true the overlay is
  transparent and takes no pointer events (\<^verbatim>\<open>opacity-0 pointer-events-none\<close>), but the page
  stays rendered and its controls can still be activated from the keyboard, so the events
  act whatever the flag. A submit event carries the values of the form's fields.
\<close>

datatype event =
    ClickLoginSignup
  | SubmitLogin string string
  | ClickForgotPassword
  | ClickEmailSignInCode
  | ClickSignUp
  | SubmitSignUp string string
  | ClickSignIn
  | SubmitResetPassword string
  | SubmitCreatePassword string string
  | ChangeOtp string
  | ClickBack
  | ClickEnter
  | Elapse nat
  | ExternalSetFlag bool

fun on_content :: "content \<Rightarrow> event \<Rightarrow> world \<Rightarrow> world" where
  "on_content WelcomeContent ClickLoginSignup w = clickLoginSignup w"
| "on_content LoginPage (SubmitLogin e p) w = LoginPage_submitForm e p w"
| "on_content LoginPage ClickForgotPassword w = clickForgotPassword w"
| "on_content LoginPage ClickEmailSignInCode w = clickEmailSignInCode w"
| "on_content LoginPage ClickSignUp w = clickSignUp w"
| "on_content (SignUpPage k) (SubmitSignUp f l) w = SignUpPage_submitForm k f l w"
| "on_content (SignUpPage k) ClickSignIn w = clickSignIn w"
| "on_content (ResetPasswordPage k) (SubmitResetPassword e) w = ResetPasswordPage_submitForm k e w"
| "on_content (CreatePasswordPage k) (SubmitCreatePassword p c) w = CreatePasswordPage_submitForm k p c w"
| "on_content (OTPPasswordPage e k) (ChangeOtp v) w = OTPPasswordPage_setOtp k v w"
| "on_content c e w = w"

fun on_footer :: "footer option \<Rightarrow> event \<Rightarrow> world \<Rightarrow> world" where
  "on_footer (Some prevButton) ClickBack w = retreat w"
| "on_footer (Some returnToSignInButton) ClickBack w = returnToSignIn w"
| "on_footer (Some lastPagePrevAndNextButtons) ClickEnter w = clickEnter w"
| "on_footer b e w = w"

fun step :: "event \<Rightarrow> world \<Rightarrow> world" where
  "step (Elapse d) w = elapse d w"
| "step (ExternalSetFlag b) w = setGlobalSetting_isOnboardingComplete b w"
| "step e w =
     (case current w of
        None \<Rightarrow> w
      | Some p \<Rightarrow> on_footer (bottom_of p) e (on_content (content_of p) e w))"

definition run :: "event list \<Rightarrow> world \<Rightarrow> world" where
  "run es w = foldl (\<lambda>w e. step e w) w es"

section \<open>Properties\<close>

subsection \<open>Auxiliary facts\<close>

lemmas stepper_defs = rerender_def remount_def key_def setPageIndex_def setStepperType_def
  setPageType_def setIsSubmitting_def onSuccess_def

lemmas table_defs = lookup_def signInStepperFlow_def signUpStepperFlow_def
  stepperFlowStartingPoint_def renderLastStep_def

lemma elapse_to_no_timer:
  "timers w = [] \<Longrightarrow> elapse_to limit w = w\<lparr> now := max (now w) limit \<rparr>"
  by (subst elapse_to.simps) simp

lemma elapse_to_not_due:
  "timers w = [(t, k)] \<Longrightarrow> limit < t \<Longrightarrow> elapse_to limit w = w\<lparr> now := max (now w) limit \<rparr>"
  by (subst elapse_to.simps) simp

lemma elapse_to_due:
  "timers w = [(t, k)] \<Longrightarrow> t \<le> limit \<Longrightarrow>
   elapse_to limit w = elapse_to limit (fire k (w\<lparr> now := max (now w) t, timers := [] \<rparr>))"
  by (subst elapse_to.simps) simp


lemma fire_resume_timers:
  "k \<noteq> ClearErrorMessage \<Longrightarrow> filter (\<lambda>(t, k). k \<noteq> ClearErrorMessage) (timers w) = timers w \<Longrightarrow>
   timers (fire k w) = timers w"
  by (cases k) (simp_all add: stepper_defs Let_def)


lemma fire_now: "now (fire k w) = now w"
  by (cases k) (simp_all add: stepper_defs Let_def setErrorMessage_def)

lemmas handler_defs = clickLoginSignup_def clickForgotPassword_def clickEmailSignInCode_def
  clickSignUp_def clickSignIn_def retreat_def returnToSignIn_def
  LoginPage_submitForm_def SignUpPage_submitForm_def ResetPasswordPage_submitForm_def
  CreatePasswordPage_submitForm_def await_1500_def

lemmas run_defs = run_def initial_def current_def table_defs handler_defs stepper_defs
  elapse_def elapse_to_due elapse_to_no_timer Let_def

lemma upto_0_9: "[0..9::int] = [0, 1, 2, 3, 4, 5, 6, 7, 8, 9]"
  by code_simp

lemmas old_table_defs = signInStepperFlow_old_def signUpStepperFlow_old_def
  stepperFlowStartingPoint_old_def

lemma dom_tables:
  "dom signInStepperFlow = {0, 1, 2, 3, 4, 5, 6}"
  "dom signUpStepperFlow = {0, 1, 2, 3, 4}"
  "dom signInStepperFlow_old = {0, 1, 2, 3, 4, 5}"
  "dom signUpStepperFlow_old = {0, 1, 2, 3, 4, 9}"
  by (auto simp add: table_defs old_table_defs split: if_splits)

lemma pages_of_signUp:
  "map content_of (pages_of signUpStepperFlow) =
     [WelcomeContent, LoginPage, SignUpPage 3, CreatePasswordPage 4, SettingsAndThemes]"
  by (simp add: pages_of_def upto_0_9 List.map_filter_def table_defs)

lemma pages_of_signIn:
  "map content_of (pages_of signInStepperFlow) =
     [WelcomeContent, LoginPage, ResetPasswordPage 3, OTPPasswordPage ''test@proton.com'' 4,
      CreatePasswordPage 6, OTPPasswordPage ''test_verify_code@proton.com'' 6, SettingsAndThemes]"
  by (simp add: pages_of_def upto_0_9 List.map_filter_def table_defs)

lemma login_reaches_last:
  "key (run [ClickLoginSignup, SubmitLogin e p, Elapse 1500] (initial False)) = (signIn, 6) \<and>
   current (run [ClickLoginSignup, SubmitLogin e p, Elapse 1500] (initial False)) = Some renderLastStep"
  by (simp add: run_defs)

lemma signup_reaches_last:
  "key (run [ClickLoginSignup, ClickSignUp, SubmitSignUp f l, Elapse 1500,
             SubmitCreatePassword p p, Elapse 1500] (initial False)) = (signUp, 4) \<and>
   current (run [ClickLoginSignup, ClickSignUp, SubmitSignUp f l, Elapse 1500,
             SubmitCreatePassword p p, Elapse 1500] (initial False)) = Some renderLastStep"
  by (simp add: run_defs)

lemma setOtp_short:
  "length v \<noteq> 6 \<Longrightarrow> OTPPasswordPage_setOtp k v w = w\<lparr> otp := v \<rparr>"
  by (simp add: OTPPasswordPage_setOtp_def Let_def)

lemma setOtp_short_seq:
  "\<forall>v \<in> set vs. length v < 6 \<Longrightarrow>
   foldl (\<lambda>w v. OTPPasswordPage_setOtp k v w) w vs = w\<lparr> otp := last (otp w # vs) \<rparr>"
  by (induction vs arbitrary: w) (simp_all add: setOtp_short)

lemma setOtp_full:
  "length v = 6 \<Longrightarrow> length (otp w) \<noteq> 6 \<Longrightarrow>
   continuationCalls (OTPPasswordPage_setOtp k v w) = continuationCalls w + 1"
  by (auto simp add: OTPPasswordPage_setOtp_def Let_def stepper_defs)


lemma queued_not_due:
  "timers W = [(now W + 1500, k)] \<Longrightarrow> d < 1500 \<Longrightarrow> elapse d W = W\<lparr> now := now W + d \<rparr>"
  by (simp add: elapse_def elapse_to_not_due)

lemma queued_due:
  assumes "timers W = [(now W + 1500, k)]" and "k \<noteq> ClearErrorMessage" and "1500 \<le> d"
  shows "elapse d W = (fire k (W\<lparr> now := now W + 1500, timers := [] \<rparr>))\<lparr> now := now W + d \<rparr>"
proof -
  let ?W1 = "fire k (W\<lparr> now := now W + 1500, timers := [] \<rparr>)"
  have t: "timers ?W1 = []" using assms(2) by (simp add: fire_resume_timers)
  have n: "now ?W1 = now W + 1500" by (simp add: fire_now)
  have "elapse d W = elapse_to (now W + d) ?W1"
    using assms(1,3) by (simp add: elapse_def elapse_to_due)
  also have "\<dots> = ?W1\<lparr> now := max (now ?W1) (now W + d) \<rparr>"
    using t by (rule elapse_to_no_timer)
  also have "\<dots> = ?W1\<lparr> now := now W + d \<rparr>" using n assms(3) by (simp add: max_def)
  finally show ?thesis .
qed



lemma next_disabled_state:
  "timers w = [] \<Longrightarrow> errorMessage w = None \<Longrightarrow>
   AddProvidersPage_next True w =
     w\<lparr> errorMessage := Some ''Please set up at least one Chat model before moving on.'',
        timers := [(now w + 5000, ClearErrorMessage)] \<rparr>"
  by (simp add: AddProvidersPage_next_def setErrorMessage_def)

lemma lookup_None_iff:
  "(lookup signIn i = None) = (i < 0 \<or> 6 < i)"
  "(lookup signUp i = None) = (i < 0 \<or> 4 < i)"
proof -
  have "(lookup signIn i = None) = (i \<notin> dom signInStepperFlow)"
    by (simp add: lookup_def domIff)
  also have "\<dots> = (i < 0 \<or> 6 < i)" unfolding dom_tables by auto
  finally show "(lookup signIn i = None) = (i < 0 \<or> 6 < i)" .
  have "(lookup signUp i = None) = (i \<notin> dom signUpStepperFlow)"
    by (simp add: lookup_def domIff)
  also have "\<dots> = (i < 0 \<or> 4 < i)" unfolding dom_tables by auto
  finally show "(lookup signUp i = None) = (i < 0 \<or> 4 < i)" .
qed

lemma blank_reached:
  "key (run [ClickLoginSignup, ClickSignUp, ClickSignIn, ClickEmailSignInCode] (initial False)) = (signUp, 5) \<and>
   current (run [ClickLoginSignup, ClickSignUp, ClickSignIn, ClickEmailSignInCode] (initial False)) = None"
  by (simp add: run_defs)

lemma step_ChangeOtp:
  "map_option content_of (current w) = Some (OTPPasswordPage e k) \<Longrightarrow>
   step (ChangeOtp v) w = OTPPasswordPage_setOtp k v w"
proof -
  assume a: "map_option content_of (current w) = Some (OTPPasswordPage e k)"
  then obtain p where p: "current w = Some p" "content_of p = OTPPasswordPage e k" by auto
  have f: "on_footer b (ChangeOtp v) u = u" for b u
    by (cases "(b, ChangeOtp v, u)" rule: on_footer.cases) simp_all
  show ?thesis using p f by simp
qed

lemma run_ChangeOtp_short:
  "\<forall>v \<in> set vs. length v < 6 \<Longrightarrow>
   map_option content_of (current w) = Some (OTPPasswordPage e k) \<Longrightarrow>
   run (map ChangeOtp vs) w = foldl (\<lambda>w v. OTPPasswordPage_setOtp k v w) w vs"
proof (induction vs arbitrary: w)
  case Nil
  then show ?case by (simp add: run_def)
next
  case (Cons v vs)
  have s: "step (ChangeOtp v) w = OTPPasswordPage_setOtp k v w"
    using Cons.prems(2) by (rule step_ChangeOtp)
  have u: "OTPPasswordPage_setOtp k v w = w\<lparr> otp := v \<rparr>"
    using Cons.prems(1) by (simp add: setOtp_short)
  have c: "map_option content_of (current (w\<lparr> otp := v \<rparr>)) = Some (OTPPasswordPage e k)"
    using Cons.prems(2) by (simp add: current_def)
  have "run (map ChangeOtp vs) (w\<lparr> otp := v \<rparr>)
        = foldl (\<lambda>w v. OTPPasswordPage_setOtp k v w) (w\<lparr> otp := v \<rparr>) vs"
    using Cons.prems(1) c by (intro Cons.IH) simp_all
  then show ?case using s u by (simp add: run_def)
qed

lemma setOtp_full_state:
  "length v = 6 \<Longrightarrow> length (otp w) \<noteq> 6 \<Longrightarrow>
   pageIndex (OTPPasswordPage_setOtp k v w) = k \<and>
   stepperType (OTPPasswordPage_setOtp k v w) = stepperType w"
  by (auto simp add: OTPPasswordPage_setOtp_def Let_def stepper_defs)

subsection \<open>Switching the flow\<close>

text \<open>
  C1, as stated, fails. The state \<open>(signIn, 1)\<close> is the one reached from the initial state by
  the button of page 0; the link "Sign up" of \<^verbatim>\<open>LoginPage\<close> calls \<^verbatim>\<open>setPageType('signUp')\<close>,
  which also increments the page index, so the next state is \<open>(signUp, 2)\<close> and not
  \<open>(signUp, 1)\<close>.
\<close>

theorem switch_flow_keeps_index_counterexample:
  "key (run [ClickLoginSignup] (initial False)) = (signIn, 1) \<and>
   key (clickSignUp (run [ClickLoginSignup] (initial False))) = (signUp, 2) \<and>
   key (clickSignUp (run [ClickLoginSignup] (initial False))) \<noteq> (signUp, 1)"
  by code_simp

text \<open>
  C1, amended: switching the flow with \<^verbatim>\<open>setPageType\<close> sets the flow type and advances the page
  index by one. From page 1 the click on "Sign up" leads to page 2 of the sign-up flow, and
  the lookup there resolves against the sign-up table, to the registration form.
\<close>

theorem switch_flow_advances_index:
  "stepperType (clickSignUp w) = signUp \<and>
   pageIndex (clickSignUp w) = pageIndex w + 1 \<and>
   (pageIndex w = 1 \<longrightarrow>
      current (clickSignUp w) = signUpStepperFlow 2 \<and>
      signUpStepperFlow 2 = Some (OnboardingFormPageShell ''Sign up'' (SignUpPage 3) (Some prevButton)))"
  by (simp add: clickSignUp_def current_def stepper_defs table_defs Let_def)

theorem switch_flow_advances_index_witness:
  "pageIndex (run [ClickLoginSignup] (initial False)) = 1 \<and>
   key (clickSignUp (run [ClickLoginSignup] (initial False))) = (signUp, 2) \<and>
   current (clickSignUp (run [ClickLoginSignup] (initial False)))
     = Some (OnboardingFormPageShell ''Sign up'' (SignUpPage 3) (Some prevButton))"
proof -
  have h: "pageIndex (run [ClickLoginSignup] (initial False)) = 1" by code_simp
  show ?thesis
    using h switch_flow_advances_index [of "run [ClickLoginSignup] (initial False)"]
    by (simp add: key_def)
qed

subsection \<open>The two tables\<close>

text \<open>
  C2, as stated, fails. The sign-up table of the component has the pages welcome, sign in,
  registration, password creation and last step: no page of it is an OTP page. The earlier
  revision of the file does have the code page between password creation and the last step
  of its sign-up table, but there the sign-in table has no last step at all.
\<close>

theorem signUp_table_has_otp_counterexample:
  "map content_of (pages_of signUpStepperFlow) =
     [WelcomeContent, LoginPage, SignUpPage 3, CreatePasswordPage 4, SettingsAndThemes] \<and>
   \<not> list_ex is_otp (map content_of (pages_of signUpStepperFlow)) \<and>
   map (fst \<circ> snd) (pages_of signUpStepperFlow_old) =
     [WelcomeContent_old, LoginPage_old, SignUpPage_old, CreatePasswordPage_old,
      ConfirmEmailPasswordPage_old, SettingsAndThemes_old] \<and>
   SettingsAndThemes_old \<notin> set (map (fst \<circ> snd) (pages_of signInStepperFlow_old))"
  by (simp add: pages_of_def upto_0_9 List.map_filter_def table_defs old_table_defs)

text \<open>
  C2, amended: the two tables agree at 0 (welcome) and 1 (credential entry) and differ at 2.
  The sign-up table continues with registration details at 2, password creation at 3 and the
  last step (settings import) at 4; the sign-in table continues with the four pages of the
  password reset and of the e-mail code at 2 to 5 and has the last step at 6. The last step
  is reached in either flow from the initial state: by a sign-in, and by a registration
  followed by a password.
\<close>

theorem tables_share_prefix_then_diverge:
  "signInStepperFlow 0 = signUpStepperFlow 0 \<and>
   signInStepperFlow 1 = signUpStepperFlow 1 \<and>
   signInStepperFlow 2 \<noteq> signUpStepperFlow 2 \<and>
   dom signInStepperFlow = {0, 1, 2, 3, 4, 5, 6} \<and>
   dom signUpStepperFlow = {0, 1, 2, 3, 4} \<and>
   map content_of (pages_of signUpStepperFlow) =
     [WelcomeContent, LoginPage, SignUpPage 3, CreatePasswordPage 4, SettingsAndThemes] \<and>
   map content_of (pages_of signInStepperFlow) =
     [WelcomeContent, LoginPage, ResetPasswordPage 3, OTPPasswordPage ''test@proton.com'' 4,
      CreatePasswordPage 6, OTPPasswordPage ''test_verify_code@proton.com'' 6, SettingsAndThemes] \<and>
   signInStepperFlow 6 = Some renderLastStep \<and>
   signUpStepperFlow 4 = Some renderLastStep \<and>
   key (run [ClickLoginSignup, SubmitLogin e p, Elapse 1500] (initial False)) = (signIn, 6) \<and>
   current (run [ClickLoginSignup, SubmitLogin e p, Elapse 1500] (initial False)) = Some renderLastStep \<and>
   key (run [ClickLoginSignup, ClickSignUp, SubmitSignUp f l, Elapse 1500,
             SubmitCreatePassword q q, Elapse 1500] (initial False)) = (signUp, 4) \<and>
   current (run [ClickLoginSignup, ClickSignUp, SubmitSignUp f l, Elapse 1500,
             SubmitCreatePassword q q, Elapse 1500] (initial False)) = Some renderLastStep"
proof -
  have "signInStepperFlow 0 = signUpStepperFlow 0" "signInStepperFlow 1 = signUpStepperFlow 1"
    "signInStepperFlow 2 \<noteq> signUpStepperFlow 2"
    "signInStepperFlow 6 = Some renderLastStep" "signUpStepperFlow 4 = Some renderLastStep"
    by (simp_all add: table_defs)
  then show ?thesis
    using dom_tables(1,2) pages_of_signUp pages_of_signIn login_reaches_last [of e p]
      signup_reaches_last [of f l q]
    by simp
qed

subsection \<open>Password and confirmation\<close>

text \<open>
  C3: when the password and the confirmation differ, \<^verbatim>\<open>submitForm\<close> of \<^verbatim>\<open>CreatePasswordPage\<close>
  only sets the inline error. The continuation is not run and the page index and the flow
  stay; the submitting flag is not touched and no timer is queued, so that on a page with
  no timer pending no lapse of time runs the continuation or moves the page.
\<close>

theorem mismatch_aborts:
  "password \<noteq> confirmPassword \<Longrightarrow>
   (let w' = CreatePasswordPage_submitForm k password confirmPassword w in
      w' = w\<lparr> error := ''Passwords do not match'' \<rparr> \<and>
      continuationCalls w' = continuationCalls w \<and>
      pageIndex w' = pageIndex w \<and> stepperType w' = stepperType w \<and>
      error w' = ''Passwords do not match'' \<and>
      isSubmitting w' = isSubmitting w \<and>
      timers w' = timers w \<and>
      (timers w = [] \<longrightarrow>
         continuationCalls (elapse d w') = continuationCalls w \<and>
         pageIndex (elapse d w') = pageIndex w))"
  by (simp add: CreatePasswordPage_submitForm_def Let_def elapse_def elapse_to_no_timer)

theorem mismatch_aborts_witness:
  "''password1'' \<noteq> ''password2'' \<and>
   current (run [ClickLoginSignup, ClickSignUp, SubmitSignUp ''Ada'' ''Lovelace'', Elapse 1500] (initial False))
     = Some (OnboardingFormPageShell ''Create password'' (CreatePasswordPage 4) (Some prevButton)) \<and>
   timers (run [ClickLoginSignup, ClickSignUp, SubmitSignUp ''Ada'' ''Lovelace'', Elapse 1500] (initial False)) = [] \<and>
   error (CreatePasswordPage_submitForm 4 ''password1'' ''password2''
     (run [ClickLoginSignup, ClickSignUp, SubmitSignUp ''Ada'' ''Lovelace'', Elapse 1500] (initial False)))
     = ''Passwords do not match'' \<and>
   pageIndex (elapse 60000 (CreatePasswordPage_submitForm 4 ''password1'' ''password2''
     (run [ClickLoginSignup, ClickSignUp, SubmitSignUp ''Ada'' ''Lovelace'', Elapse 1500] (initial False)))) = 3 \<and>
   continuationCalls (elapse 60000 (CreatePasswordPage_submitForm 4 ''password1'' ''password2''
     (run [ClickLoginSignup, ClickSignUp, SubmitSignUp ''Ada'' ''Lovelace'', Elapse 1500] (initial False)))) = 1"
proof -
  let ?w = "run [ClickLoginSignup, ClickSignUp, SubmitSignUp ''Ada'' ''Lovelace'', Elapse 1500] (initial False)"
  have h: "''password1'' \<noteq> ''password2''" by simp
  have t: "timers ?w = []" by (simp add: run_defs)
  have c: "current ?w = Some (OnboardingFormPageShell ''Create password'' (CreatePasswordPage 4) (Some prevButton))"
    by (simp add: run_defs)
  have p: "pageIndex ?w = 3" "continuationCalls ?w = 1" by (simp_all add: run_defs)
  note m = mismatch_aborts [OF h, of 4 ?w 60000, unfolded Let_def]
  from m have e: "error (CreatePasswordPage_submitForm 4 ''password1'' ''password2'' ?w)
      = ''Passwords do not match''" by blast
  from m t have l: "continuationCalls (elapse 60000 (CreatePasswordPage_submitForm 4 ''password1'' ''password2'' ?w))
      = continuationCalls ?w \<and>
    pageIndex (elapse 60000 (CreatePasswordPage_submitForm 4 ''password1'' ''password2'' ?w)) = pageIndex ?w"
    by blast
  show ?thesis using h t c p e l by simp
qed

subsection \<open>The code of six characters\<close>

text \<open>
  C4: on the OTP page, while every value entered is shorter than 6 characters the
  continuation is not invoked: the counter of its runs and the rendered page stay. When the
  value then reaches length 6, \<^verbatim>\<open>onSuccess\<close> is invoked exactly once: the counter goes up by
  one and the stepper is at the target \<open>k\<close> of the continuation, in the same flow. The values
  \<open>vs\<close> are those passed to \<^verbatim>\<open>setOtp\<close> one after the other, on a page whose field holds fewer
  than 6 characters (it is empty at mount); when the rendered page is the OTP page with the
  continuation \<open>k\<close>, these are the states reached by the change events of the field.
\<close>

theorem otp_completes_once_at_six:
  assumes "\<forall>v \<in> set vs. length v < 6" and "length (otp w) < 6" and "length v6 = 6"
  shows "continuationCalls (foldl (\<lambda>w v. OTPPasswordPage_setOtp k v w) w vs) = continuationCalls w \<and>
         key (foldl (\<lambda>w v. OTPPasswordPage_setOtp k v w) w vs) = key w \<and>
         continuationCalls (OTPPasswordPage_setOtp k v6 (foldl (\<lambda>w v. OTPPasswordPage_setOtp k v w) w vs))
           = continuationCalls w + 1 \<and>
         key (OTPPasswordPage_setOtp k v6 (foldl (\<lambda>w v. OTPPasswordPage_setOtp k v w) w vs))
           = (stepperType w, k) \<and>
         (map_option content_of (current w) = Some (OTPPasswordPage e k) \<longrightarrow>
            run (map ChangeOtp vs) w = foldl (\<lambda>w v. OTPPasswordPage_setOtp k v w) w vs \<and>
            run (map ChangeOtp (vs @ [v6])) w
              = OTPPasswordPage_setOtp k v6 (foldl (\<lambda>w v. OTPPasswordPage_setOtp k v w) w vs))"
proof -
  let ?w' = "foldl (\<lambda>w v. OTPPasswordPage_setOtp k v w) w vs"
  have eq: "?w' = w\<lparr> otp := last (otp w # vs) \<rparr>"
    using assms(1) by (rule setOtp_short_seq)
  have "last (otp w # vs) \<in> set (otp w # vs)" by (rule last_in_set) simp
  then have "length (last (otp w # vs)) < 6" using assms(1,2) by auto
  then have short: "length (otp ?w') \<noteq> 6" using eq by simp
  have calls: "continuationCalls ?w' = continuationCalls w" using eq by simp
  have k0: "key ?w' = key w" using eq by (simp add: key_def)
  have c1: "continuationCalls (OTPPasswordPage_setOtp k v6 ?w') = continuationCalls w + 1"
    using setOtp_full [OF assms(3) short, of k] calls by simp
  have k1: "key (OTPPasswordPage_setOtp k v6 ?w') = (stepperType w, k)"
    using setOtp_full_state [OF assms(3) short, of k] k0 by (simp add: key_def)
  have r: "run (map ChangeOtp vs) w = ?w' \<and>
           run (map ChangeOtp (vs @ [v6])) w = OTPPasswordPage_setOtp k v6 ?w'"
    if page: "map_option content_of (current w) = Some (OTPPasswordPage e k)"
  proof -
    have r0: "run (map ChangeOtp vs) w = ?w'"
      using assms(1) page by (rule run_ChangeOtp_short)
    have "map_option content_of (current ?w') = Some (OTPPasswordPage e k)"
      using page eq by (simp add: current_def)
    then have "step (ChangeOtp v6) ?w' = OTPPasswordPage_setOtp k v6 ?w'"
      by (rule step_ChangeOtp)
    moreover have "run (map ChangeOtp (vs @ [v6])) w = step (ChangeOtp v6) (run (map ChangeOtp vs) w)"
      by (simp add: run_def)
    ultimately show ?thesis using r0 by simp
  qed
  show ?thesis using calls k0 c1 k1 r by blast
qed

theorem otp_completes_once_at_six_witness:
  "current (run [ClickLoginSignup, ClickEmailSignInCode] (initial False))
     = Some (OnboardingFormPageShell ''Check your email''
              (OTPPasswordPage ''test_verify_code@proton.com'' 6) (Some returnToSignInButton)) \<and>
   length (otp (run [ClickLoginSignup, ClickEmailSignInCode] (initial False))) < 6 \<and>
   length ''123456'' = 6 \<and>
   continuationCalls (run (map ChangeOtp [''1'', ''12'', ''123'', ''1234'', ''12345''])
       (run [ClickLoginSignup, ClickEmailSignInCode] (initial False))) = 0 \<and>
   key (run (map ChangeOtp [''1'', ''12'', ''123'', ''1234'', ''12345''])
       (run [ClickLoginSignup, ClickEmailSignInCode] (initial False))) = (signIn, 5) \<and>
   continuationCalls (run (map ChangeOtp ([''1'', ''12'', ''123'', ''1234'', ''12345''] @ [''123456'']))
       (run [ClickLoginSignup, ClickEmailSignInCode] (initial False))) = 1 \<and>
   key (run (map ChangeOtp ([''1'', ''12'', ''123'', ''1234'', ''12345''] @ [''123456'']))
       (run [ClickLoginSignup, ClickEmailSignInCode] (initial False))) = (signIn, 6)"
proof -
  let ?w = "run [ClickLoginSignup, ClickEmailSignInCode] (initial False)"
  let ?vs = "[''1'', ''12'', ''123'', ''1234'', ''12345'']"
  have a: "\<forall>v \<in> set ?vs. length v < 6" by simp
  have b: "length (otp ?w) < 6" by (simp add: run_defs)
  have c: "length ''123456'' = 6" by simp
  have d: "continuationCalls ?w = 0" "key ?w = (signIn, 5)" "stepperType ?w = signIn"
    by (simp_all add: run_defs)
  have e: "current ?w = Some (OnboardingFormPageShell ''Check your email''
              (OTPPasswordPage ''test_verify_code@proton.com'' 6) (Some returnToSignInButton))"
    by (simp add: run_defs)
  then have p: "map_option content_of (current ?w)
      = Some (OTPPasswordPage ''test_verify_code@proton.com'' 6)" by simp
  note m = otp_completes_once_at_six [OF a b c, of 6 "''test_verify_code@proton.com''"]
  from m p have r: "run (map ChangeOtp ?vs) ?w = foldl (\<lambda>w v. OTPPasswordPage_setOtp 6 v w) ?w ?vs"
    "run (map ChangeOtp (?vs @ [''123456''])) ?w
      = OTPPasswordPage_setOtp 6 ''123456'' (foldl (\<lambda>w v. OTPPasswordPage_setOtp 6 v w) ?w ?vs)"
    by blast+
  from m have q: "continuationCalls (foldl (\<lambda>w v. OTPPasswordPage_setOtp 6 v w) ?w ?vs) = continuationCalls ?w"
    "key (foldl (\<lambda>w v. OTPPasswordPage_setOtp 6 v w) ?w ?vs) = key ?w"
    "continuationCalls (OTPPasswordPage_setOtp 6 ''123456'' (foldl (\<lambda>w v. OTPPasswordPage_setOtp 6 v w) ?w ?vs))
       = continuationCalls ?w + 1"
    "key (OTPPasswordPage_setOtp 6 ''123456'' (foldl (\<lambda>w v. OTPPasswordPage_setOtp 6 v w) ?w ?vs))
       = (stepperType ?w, 6)"
    by blast+
  have "continuationCalls (run (map ChangeOtp ?vs) ?w) = 0"
    "key (run (map ChangeOtp ?vs) ?w) = (signIn, 5)"
    "continuationCalls (run (map ChangeOtp (?vs @ [''123456''])) ?w) = 1"
    "key (run (map ChangeOtp (?vs @ [''123456''])) ?w) = (signIn, 6)"
    unfolding r q d by simp_all
  then show ?thesis using b c e by blast
qed

subsection \<open>Submitting a form\<close>




subsection \<open>The last step\<close>

text \<open>
  C6: the button of the last page, whatever the state, sets the flag of the settings service
  and sends the event "Completed Onboarding" to the metrics service, with the provider
  selected for the current intent category and that category.
\<close>

theorem completion_gate_effects:
  "isOnboardingComplete (clickEnter w) \<and>
   captured (clickEnter w) =
     captured w @ [(''Completed Onboarding'', getSelectedProvider w, wantToUseOption w)] \<and>
   getSelectedProvider (w\<lparr> wantToUseOption := smart \<rparr>) = selectedIntelligentProvider w \<and>
   getSelectedProvider (w\<lparr> wantToUseOption := private_opt \<rparr>) = selectedPrivateProvider w \<and>
   getSelectedProvider (w\<lparr> wantToUseOption := cheap \<rparr>) = selectedAffordableProvider w \<and>
   getSelectedProvider (w\<lparr> wantToUseOption := all_opt \<rparr>) = selectedAllProvider w"
  by (simp add: clickEnter_def capture_def setGlobalSetting_isOnboardingComplete_def flagEffect_def
        getSelectedProvider_def)

subsection \<open>The gate of the provider page\<close>

text \<open>
  C7: with the Chat feature disabled, Next of \<^verbatim>\<open>AddProvidersPage\<close> leaves the page index and
  sets the message; on a page that showed no message and has no other timer pending, the
  message stays for less than 5000 ms and is gone at 5000 ms. With the feature enabled, Next
  advances the page index by one and the message is cleared.
\<close>

theorem provider_gate:
  "pageIndex (AddProvidersPage_next True w) = pageIndex w \<and>
   errorMessage (AddProvidersPage_next True w)
     = Some ''Please set up at least one Chat model before moving on.'' \<and>
   (timers w = [] \<and> errorMessage w = None \<longrightarrow>
      (d < 5000 \<longrightarrow> errorMessage (elapse d (AddProvidersPage_next True w))
         = Some ''Please set up at least one Chat model before moving on.'') \<and>
      errorMessage (elapse 5000 (AddProvidersPage_next True w)) = None) \<and>
   pageIndex (AddProvidersPage_next False w) = pageIndex w + 1 \<and>
   errorMessage (AddProvidersPage_next False w) = None"
proof -
  have a: "pageIndex (AddProvidersPage_next True w) = pageIndex w"
    "errorMessage (AddProvidersPage_next True w)
       = Some ''Please set up at least one Chat model before moving on.''"
    by (simp_all add: AddProvidersPage_next_def setErrorMessage_def)
  have b: "pageIndex (AddProvidersPage_next False w) = pageIndex w + 1"
    "errorMessage (AddProvidersPage_next False w) = None"
    by (simp_all add: AddProvidersPage_next_def setErrorMessage_def stepper_defs)
  have c: "errorMessage (elapse d (AddProvidersPage_next True w))
         = Some ''Please set up at least one Chat model before moving on.''"
    if "timers w = []" "errorMessage w = None" "d < 5000"
    using that by (simp add: next_disabled_state elapse_def elapse_to_not_due)
  have e: "errorMessage (elapse 5000 (AddProvidersPage_next True w)) = None"
    if "timers w = []" "errorMessage w = None"
    using that by (simp add: next_disabled_state elapse_def elapse_to_due elapse_to_no_timer setErrorMessage_def)
  show ?thesis using a b c e by blast
qed

theorem provider_gate_witness:
  "timers (initial False) = [] \<and> errorMessage (initial False) = None \<and> (4999::nat) < 5000 \<and>
   pageIndex (AddProvidersPage_next True (initial False)) = 0 \<and>
   errorMessage (elapse 4999 (AddProvidersPage_next True (initial False)))
     = Some ''Please set up at least one Chat model before moving on.'' \<and>
   errorMessage (elapse 5000 (AddProvidersPage_next True (initial False))) = None \<and>
   pageIndex (AddProvidersPage_next False (initial False)) = 1 \<and>
   errorMessage (AddProvidersPage_next False (initial False)) = None"
proof -
  have t: "timers (initial False) = []" "errorMessage (initial False) = None"
    "pageIndex (initial False) = 0"
    by (simp_all add: initial_def)
  show ?thesis using provider_gate [of "initial False" 4999] t by simp
qed

subsection \<open>Pages without an entry\<close>

text \<open>
  C8: a page index outside the keys of the active table (0 to 6 for sign-in, 0 to 4 for
  sign-up) looks up to nothing, which is a value and not an error. \<^verbatim>\<open>prevButton\<close> subtracts
  one without clamping: from index 0 it leads to \<open>- 1\<close>, where nothing is rendered. And
  navigation does reach an index outside the keys: from the initial state, "Sign up",
  "Sign in" and "Email sign-in code" lead to index 5 of the sign-up flow, a blank step.
\<close>

theorem lookup_miss_is_blank_and_retreat_unclamped:
  "(lookup signIn i = None) = (i < 0 \<or> 6 < i) \<and>
   (lookup signUp i = None) = (i < 0 \<or> 4 < i) \<and>
   pageIndex (retreat w) = pageIndex w - 1 \<and>
   stepperType (retreat w) = stepperType w \<and>
   (pageIndex w = 0 \<longrightarrow> pageIndex (retreat w) = - 1 \<and> current (retreat w) = None) \<and>
   key (run [ClickLoginSignup, ClickSignUp, ClickSignIn, ClickEmailSignInCode] (initial False)) = (signUp, 5) \<and>
   current (run [ClickLoginSignup, ClickSignUp, ClickSignIn, ClickEmailSignInCode] (initial False)) = None"
proof -
  have r: "pageIndex (retreat w) = pageIndex w - 1" "stepperType (retreat w) = stepperType w"
    by (simp_all add: retreat_def stepper_defs)
  have z: "current (retreat w) = None" if "pageIndex w = 0"
    using that r lookup_None_iff [of "- 1"] by (cases "stepperType w") (simp_all add: current_def)
  show ?thesis using r z lookup_None_iff [of i] blank_reached by simp
qed

theorem lookup_miss_is_blank_and_retreat_unclamped_witness:
  "pageIndex (initial False) = 0 \<and>
   lookup signIn 7 = None \<and> lookup signUp 5 = None \<and> lookup signUp (- 1) = None \<and>
   pageIndex (retreat (initial False)) = - 1 \<and>
   current (retreat (initial False)) = None"
proof -
  have h: "pageIndex (initial False) = 0" by (simp add: initial_def)
  show ?thesis
    using h lookup_miss_is_blank_and_retreat_unclamped [of 7 "initial False"]
      lookup_miss_is_blank_and_retreat_unclamped [of 5 "initial False"]
      lookup_miss_is_blank_and_retreat_unclamped [of "- 1" "initial False"]
    by simp
qed

subsection \<open>Resetting the flag\<close>

text \<open>
  C9: when the flag of the settings service goes from true to false, the effect watching it
  sets the page index to 0, so that the first page (welcome) is rendered, in either flow.
\<close>

theorem flag_reset_returns_to_first_page:
  "isOnboardingComplete w \<Longrightarrow>
   \<not> isOnboardingComplete (setGlobalSetting_isOnboardingComplete False w) \<and>
   pageIndex (setGlobalSetting_isOnboardingComplete False w) = 0 \<and>
   stepperType (setGlobalSetting_isOnboardingComplete False w) = stepperType w \<and>
   current (setGlobalSetting_isOnboardingComplete False w) = Some (OnboardingPageShell WelcomeContent None)"
  by (cases "stepperType w")
     (simp_all add: setGlobalSetting_isOnboardingComplete_def flagEffect_def stepper_defs current_def table_defs)

theorem flag_reset_returns_to_first_page_witness:
  "isOnboardingComplete (run [ClickLoginSignup, SubmitLogin ''ada@example.org'' ''password1'', Elapse 1500, ClickEnter] (initial False)) \<and>
   key (run [ClickLoginSignup, SubmitLogin ''ada@example.org'' ''password1'', Elapse 1500, ClickEnter] (initial False)) = (signIn, 6) \<and>
   key (run [ClickLoginSignup, SubmitLogin ''ada@example.org'' ''password1'', Elapse 1500, ClickEnter,
             ExternalSetFlag False] (initial False)) = (signIn, 0) \<and>
   current (run [ClickLoginSignup, SubmitLogin ''ada@example.org'' ''password1'', Elapse 1500, ClickEnter,
             ExternalSetFlag False] (initial False)) = Some (OnboardingPageShell WelcomeContent None)"
proof -
  let ?w = "run [ClickLoginSignup, SubmitLogin ''ada@example.org'' ''password1'', Elapse 1500, ClickEnter] (initial False)"
  have h: "isOnboardingComplete ?w"
    by (simp add: run_defs clickEnter_def capture_def setGlobalSetting_isOnboardingComplete_def flagEffect_def)
  have k: "key ?w = (signIn, 6)"
    by (simp add: run_defs clickEnter_def capture_def setGlobalSetting_isOnboardingComplete_def flagEffect_def)
  have e: "run [ClickLoginSignup, SubmitLogin ''ada@example.org'' ''password1'', Elapse 1500, ClickEnter,
             ExternalSetFlag False] (initial False) = setGlobalSetting_isOnboardingComplete False ?w"
    by (simp add: run_def)
  show ?thesis
    using flag_reset_returns_to_first_page [OF h] h k unfolding e by (simp add: key_def)
qed

subsection \<open>Signing in\<close>

text \<open>
  C10: the continuation of the sign-in form, for every e-mail and password and in every
  state, leaves the flow at \<open>signIn\<close> and the page index at 6, the last step. On a page with
  no timer pending, the page rendered after a submission is the one of the submission until
  1500 ms have passed, and the last step from then on: no page in between is visited.
\<close>

theorem login_jumps_to_last_step:
  "key (fire (ResumeLogin n) w) = (signIn, 6) \<and>
   current (fire (ResumeLogin n) w) = Some renderLastStep \<and>
   (timers w = [] \<longrightarrow>
      (d < 1500 \<longrightarrow> key (elapse d (LoginPage_submitForm email password w)) = key w) \<and>
      (1500 \<le> d \<longrightarrow> key (elapse d (LoginPage_submitForm email password w)) = (signIn, 6) \<and>
                       current (elapse d (LoginPage_submitForm email password w)) = Some renderLastStep))"
proof -
  let ?W = "LoginPage_submitForm email password w"
  have f: "key (fire (ResumeLogin m) v) = (signIn, 6)"
    "current (fire (ResumeLogin m) v) = Some renderLastStep" for m v
    by (simp_all add: stepper_defs current_def table_defs Let_def)
  have t: "timers ?W = [(now ?W + 1500, ResumeLogin (mountId w))]" if "timers w = []"
    using that by (simp add: handler_defs stepper_defs)
  have kW: "key ?W = key w" by (simp add: handler_defs stepper_defs)
  have early: "key (elapse d ?W) = key w" if "timers w = []" "d < 1500"
    using queued_not_due [OF t [OF that(1)] that(2)] kW by (simp add: key_def)
  have late: "key (elapse d ?W) = (signIn, 6) \<and> current (elapse d ?W) = Some renderLastStep"
    if "timers w = []" "1500 \<le> d"
  proof -
    have "elapse d ?W = (fire (ResumeLogin (mountId w)) (?W\<lparr> now := now ?W + 1500, timers := [] \<rparr>))\<lparr> now := now ?W + d \<rparr>"
      using t [OF that(1)] by (rule queued_due) (use that(2) in simp_all)
    then show ?thesis
      using f [of "mountId w" "?W\<lparr> now := now ?W + 1500, timers := [] \<rparr>"]
      by (simp add: key_def current_def)
  qed
  show ?thesis using f early late by blast
qed

theorem login_jumps_to_last_step_witness:
  "timers (run [ClickLoginSignup] (initial False)) = [] \<and>
   current (run [ClickLoginSignup] (initial False)) = Some (OnboardingFormPageShell ''Sign in'' LoginPage None) \<and>
   key (elapse 1499 (LoginPage_submitForm ''ada@example.org'' ''password1'' (run [ClickLoginSignup] (initial False))))
     = (signIn, 1) \<and>
   key (elapse 1500 (LoginPage_submitForm ''ada@example.org'' ''password1'' (run [ClickLoginSignup] (initial False))))
     = (signIn, 6) \<and>
   current (elapse 1500 (LoginPage_submitForm ''ada@example.org'' ''password1'' (run [ClickLoginSignup] (initial False))))
     = Some renderLastStep"
proof -
  let ?w = "run [ClickLoginSignup] (initial False)"
  have t: "timers ?w = []" by (simp add: run_defs)
  have k: "key ?w = (signIn, 1)" by (simp add: run_defs)
  have c: "current ?w = Some (OnboardingFormPageShell ''Sign in'' LoginPage None)" by (simp add: run_defs)
  show ?thesis
    using login_jumps_to_last_step [of 0 ?w 1499 "''ada@example.org''" "''password1''"]
      login_jumps_to_last_step [of 0 ?w 1500 "''ada@example.org''" "''password1''"] t k c
    by simp
qed

end
